theory Spec2Isabelle
  imports Main
begin

section \<open>The environment registry of \<open>src/index.ts\<close>\<close>

text \<open>
  The class \<open>Env<T>\<close> holds one private field \<open>m\<close>, a plain JavaScript object
  used as a dictionary from string keys to services. JavaScript objects are mutable and
  are passed by reference, so the model keeps them in an explicit store: every
  \<open>new Env(...)\<close> and every object literal of the source allocates a cell, and a
  method takes the store and returns it with the cells it allocated.
\<close>

subsection \<open>Store\<close>

type_synonym key = string
type_synonym addr = nat

text \<open>
  A cell is either a plain object (its own properties, one value per key, as a
  JavaScript object has them) or an instance of the class \<open>Env\<close> (its field \<open>m\<close>,
  a reference to a plain object). The computed key \<open>[key]\<close> of an object literal and
  the spread \<open>...obj\<close> both define own data properties, whatever the string, so the
  own properties are a map from all strings. The class never enumerates an object, so
  the order of the properties is left out.
\<close>

datatype 'v cell = Object "key \<rightharpoonup> 'v" | Instance addr

text \<open>
  The program state: the store of objects, and \<open>world\<close>, everything else a layer
  constructor supplied by the caller may read and change (its closure variables, its
  counters, its logs). The class itself never touches \<open>world\<close>.
\<close>

record ('v, 'w) state =
  heap :: "'v cell list"
  world :: 'w

definition alloc :: "'v cell \<Rightarrow> ('v, 'w) state \<Rightarrow> addr \<times> ('v, 'w) state" where
  "alloc c s = (length (heap s), s\<lparr>heap := heap s @ [c]\<rparr>)"

definition cell_at :: "('v, 'w) state \<Rightarrow> addr \<Rightarrow> 'v cell option" where
  "cell_at s a = (if a < length (heap s) then Some (heap s ! a) else None)"

text \<open>The own properties of the plain object at an address (none where there is no object).\<close>

definition props :: "('v, 'w) state \<Rightarrow> addr \<Rightarrow> (key \<rightharpoonup> 'v)" where
  "props s a = (case cell_at s a of Some (Object ps) \<Rightarrow> ps | _ \<Rightarrow> Map.empty)"

text \<open>\<open>this.m\<close>, read and dereferenced.\<close>

definition this_m :: "('v, 'w) state \<Rightarrow> addr \<Rightarrow> (key \<rightharpoonup> 'v)" where
  "this_m s this = (case cell_at s this of Some (Instance a) \<Rightarrow> props s a | _ \<Rightarrow> Map.empty)"

text \<open>
  A reference is an environment of the state when it points at an \<open>Env\<close> instance whose
  field points at a plain object. JavaScript has no other kind of reference to an
  \<open>Env\<close>; the theorems about "every environment" assume it.
\<close>

definition is_Env :: "('v, 'w) state \<Rightarrow> addr \<Rightarrow> bool" where
  "is_Env s e =
     (case cell_at s e of
        Some (Instance a) \<Rightarrow> (case cell_at s a of Some (Object ps) \<Rightarrow> True | _ \<Rightarrow> False)
      | _ \<Rightarrow> False)"

text \<open>
  \<open>extends s' s\<close>: every cell of \<open>s\<close> is still there in \<open>s'\<close>, unchanged; \<open>s'\<close> may
  hold new cells after them.
\<close>

definition extends :: "('v, 'w) state \<Rightarrow> ('v, 'w) state \<Rightarrow> bool" where
  "extends s' s = (take (length (heap s)) (heap s') = heap s)"

subsection \<open>The class \<open>Env\<close>\<close>

text \<open>\<open>private constructor(m: T) { this.m = m }\<close>\<close>

definition Env :: "addr \<Rightarrow> ('v, 'w) state \<Rightarrow> addr \<times> ('v, 'w) state" where
  "Env m s = alloc (Instance m) s"

text \<open>\<open>static build = () => new Env({})\<close>\<close>

definition build :: "('v, 'w) state \<Rightarrow> addr \<times> ('v, 'w) state" where
  "build s = (let (m0, s1) = alloc (Object Map.empty) s in Env m0 s1)"

text \<open>
  \<open>with(key, value)\<close>, named \<open>with_env\<close> here (\<open>with\<close> is a keyword of Isar):
  the literal \<open>{ [key]: value }\<close> is a fresh object with the one property; the literal \<open>{...this.m, ..._m}\<close> is a fresh object that receives the own
  properties of \<open>this.m\<close> and then those of \<open>_m\<close>, a later one replacing an earlier
  one of the same key.
\<close>

definition with_env :: "addr \<Rightarrow> key \<Rightarrow> 'v \<Rightarrow> ('v, 'w) state \<Rightarrow> addr \<times> ('v, 'w) state" where
  "with_env this key val s =
     (let (m1, s1) = alloc (Object [key \<mapsto> val]) s;
          (m2, s2) = alloc (Object (Map.empty ++ this_m s1 this ++ props s1 m1)) s1
      in Env m2 s2)"

text \<open>
  A layer constructor \<open>Layer<T, V> = (env: Env<T>) => V\<close> is a function of the
  caller's: given the environment and the state it returns a value or raises (\<open>Inl\<close>),
  and leaves the state as it made it.
\<close>

type_synonym ('v, 'w, 'x) Layer = "addr \<Rightarrow> ('v, 'w) state \<Rightarrow> ('x + 'v) \<times> ('v, 'w) state"

text \<open>
  \<open>withLayer(key, live) { return this.with(key, live(this)) }\<close>: the argument
  \<open>live(this)\<close> is evaluated first; when it raises, \<open>with\<close> is never called.
\<close>

definition withLayer ::
  "addr \<Rightarrow> key \<Rightarrow> ('v, 'w, 'x) Layer \<Rightarrow> ('v, 'w) state \<Rightarrow> ('x + addr) \<times> ('v, 'w) state" where
  "withLayer this key live s =
     (case live this s of
        (Inl x, s1) \<Rightarrow> (Inl x, s1)
      | (Inr v, s1) \<Rightarrow> (let (e, s2) = with_env this key v s1 in (Inr e, s2)))"

text \<open>
  \<open>consume(key, live) { const _m = { [key]: live(this) }; return new Env(_m) }\<close>
\<close>

definition consume ::
  "addr \<Rightarrow> key \<Rightarrow> ('v, 'w, 'x) Layer \<Rightarrow> ('v, 'w) state \<Rightarrow> ('x + addr) \<times> ('v, 'w) state" where
  "consume this key live s =
     (case live this s of
        (Inl x, s1) \<Rightarrow> (Inl x, s1)
      | (Inr v, s1) \<Rightarrow>
          (let (m1, s2) = alloc (Object [key \<mapsto> v]) s1;
               (e, s3) = Env m1 s2
           in (Inr e, s3)))"

text \<open>
  \<open>get(key) { return this.m[key] }\<close>: \<open>Some v\<close> is the value of the own property;
  \<open>None\<close> says that \<open>this.m\<close> has no own property of that name (the read then yields
  what \<open>Object.prototype\<close> has under the name, \<open>undefined\<close> for all but its built-in
  names). The type \<open>K extends keyof T\<close> admits only keys of the declared signature.
\<close>

definition get :: "addr \<Rightarrow> key \<Rightarrow> ('v, 'w) state \<Rightarrow> 'v option" where
  "get this key s = this_m s this key"

subsection \<open>Declared signatures\<close>

text \<open>
  The type parameter \<open>T\<close> of \<open>Env<T>\<close> is the declared signature. The source builds
  it from three type expressions only: \<open>{}\<close> (the type of \<open>build()\<close>),
  \<open>Has<K, V> = {[P in K]: V}\<close> and the intersection \<open>A & B\<close>. A value type \<open>V\<close> is
  taken as the set of the values it admits, written as a predicate; the intersection
  of two value types admits the values both admit.
\<close>

datatype 'v tsig = EmptyT | Has key "'v \<Rightarrow> bool" | Inter "'v tsig" "'v tsig"

text \<open>\<open>keyof T\<close>: the keys the signature declares.\<close>

fun keyof :: "'v tsig \<Rightarrow> key set" where
  "keyof EmptyT = {}"
| "keyof (Has k V) = {k}"
| "keyof (Inter A B) = keyof A \<union> keyof B"

text \<open>
  \<open>T[K]\<close>: the type the signature declares for a key. A property declared by both
  sides of an intersection has the intersection of the two declared types.
\<close>

fun index_access :: "'v tsig \<Rightarrow> key \<Rightarrow> ('v \<Rightarrow> bool) option" where
  "index_access EmptyT k = None"
| "index_access (Has k' V) k = (if k = k' then Some V else None)"
| "index_access (Inter A B) k =
     (case index_access A k of
        None \<Rightarrow> index_access B k
      | Some V1 \<Rightarrow>
          (case index_access B k of
             None \<Rightarrow> Some V1
           | Some V2 \<Rightarrow> Some (\<lambda>v. V1 v \<and> V2 v)))"

text \<open>The return types the methods declare, for a receiver of type \<open>Env<T>\<close>.\<close>

definition build_type :: "'v tsig" where
  "build_type = EmptyT"

definition with_type :: "'v tsig \<Rightarrow> key \<Rightarrow> ('v \<Rightarrow> bool) \<Rightarrow> 'v tsig" where
  "with_type T K V = Inter T (Has K V)"

definition withLayer_type :: "'v tsig \<Rightarrow> key \<Rightarrow> ('v \<Rightarrow> bool) \<Rightarrow> 'v tsig" where
  "withLayer_type T K V = Inter T (Has K V)"

definition consume_type :: "'v tsig \<Rightarrow> key \<Rightarrow> ('v \<Rightarrow> bool) \<Rightarrow> 'v tsig" where
  "consume_type T K V = Has K V"

definition get_type :: "'v tsig \<Rightarrow> key \<Rightarrow> ('v \<Rightarrow> bool) option" where
  "get_type T K = index_access T K"

subsection \<open>Vocabulary of the properties\<close>

text \<open>
  A layer constructor that keeps a log in \<open>world\<close>: each time it is invoked it appends
  the environment it was passed, with the properties it found in it, and returns what
  \<open>f\<close> computes. The log after an operation tells how often, with which environment
  and at which contents the operation invoked the constructor.
\<close>

definition recording ::
  "(addr \<Rightarrow> ('v, (addr \<times> (key \<rightharpoonup> 'v)) list) state \<Rightarrow> 'x + 'v) \<Rightarrow>
   ('v, (addr \<times> (key \<rightharpoonup> 'v)) list, 'x) Layer" where
  "recording f env s = (f env s, s\<lparr>world := world s @ [(env, this_m s env)]\<rparr>)"

text \<open>
  The environment that \<open>bind\<close> makes of the constructor's result on the environment as
  it is before the extension; the failure of the constructor where it raises.
\<close>

definition bind_of_layer_result ::
  "addr \<Rightarrow> key \<Rightarrow> ('v, 'w, 'x) Layer \<Rightarrow> ('v, 'w) state \<Rightarrow> ('x + addr) \<times> ('v, 'w) state" where
  "bind_of_layer_result E K f s =
     (case fst (f E s) of
        Inl x \<Rightarrow> (Inl x, snd (f E s))
      | Inr v \<Rightarrow> (Inr (fst (with_env E K v (snd (f E s)))), snd (with_env E K v (snd (f E s)))))"

subsection \<open>Example material\<close>

text \<open>
  The environment of the examples: the instance at address 1, with \<open>"a"\<close> bound to 1
  and \<open>"x"\<close> bound to 99, and an empty log.
\<close>

definition example_state :: "(int, (addr \<times> (key \<rightharpoonup> int)) list) state" where
  "example_state =
     \<lparr>heap = [Object [''a'' \<mapsto> 1, ''x'' \<mapsto> 99], Instance 0], world = []\<rparr>"

text \<open>
  \<open>env => env.get("a") + 1\<close> and \<open>env => env.get("a") * 2\<close>, on integers; where
  \<open>"a"\<close> is missing the JavaScript result is not an integer, and the example
  constructors raise instead. \<open>boom\<close> always raises.
\<close>

definition a_plus_1 :: "addr \<Rightarrow> (int, 'w) state \<Rightarrow> string + int" where
  "a_plus_1 env s = (case get env ''a'' s of Some n \<Rightarrow> Inr (n + 1) | None \<Rightarrow> Inl ''a is undefined'')"

definition a_times_2 :: "addr \<Rightarrow> (int, 'w) state \<Rightarrow> string + int" where
  "a_times_2 env s = (case get env ''a'' s of Some n \<Rightarrow> Inr (n * 2) | None \<Rightarrow> Inl ''a is undefined'')"

definition boom :: "addr \<Rightarrow> (int, 'w) state \<Rightarrow> string + int" where
  "boom env s = Inl ''boom''"

text \<open>Two kinds of service values, and the types \<open>number\<close> and \<open>string\<close> over them.\<close>

datatype jsval = Num int | Str string

definition is_number :: "jsval \<Rightarrow> bool" where
  "is_number v = (case v of Num n \<Rightarrow> True | Str t \<Rightarrow> False)"

definition is_string :: "jsval \<Rightarrow> bool" where
  "is_string v = (case v of Num n \<Rightarrow> False | Str t \<Rightarrow> True)"

section \<open>Store lemmas\<close>

lemma cell_at_alloc:
  "cell_at (snd (alloc c s)) a =
     (if a = length (heap s) then Some c else cell_at s a)"
  by (auto simp: cell_at_def alloc_def nth_append)

lemma fst_alloc: "fst (alloc c s) = length (heap s)"
  by (simp add: alloc_def)

lemma heap_alloc: "heap (snd (alloc c s)) = heap s @ [c]"
  by (simp add: alloc_def)

lemma world_alloc: "world (snd (alloc c s)) = world s"
  by (simp add: alloc_def)

lemma fst_with_env: "fst (with_env E K V s) = Suc (Suc (length (heap s)))"
  by (simp add: with_env_def Env_def Let_def split_def fst_alloc heap_alloc)

lemma heap_with_env:
  "heap (snd (with_env E K V s)) =
     heap s @ [Object [K \<mapsto> V],
               Object ((this_m (snd (alloc (Object [K \<mapsto> V]) s)) E)(K \<mapsto> V)),
               Instance (Suc (length (heap s)))]"
  by (simp add: with_env_def Env_def Let_def split_def fst_alloc heap_alloc props_def cell_at_alloc)

lemma world_with_env: "world (snd (with_env E K V s)) = world (s::('v,'w) state)"
  by (simp add: with_env_def Env_def Let_def split_def world_alloc)

lemma this_m_with_env_raw:
  "this_m (snd (with_env E K V s)) (fst (with_env E K V s)) =
     (this_m (snd (alloc (Object [K \<mapsto> V]) s)) E)(K \<mapsto> V)"
  by (simp add: this_m_def props_def cell_at_def fst_with_env heap_with_env nth_append)

lemma extends_length: "extends s' s \<Longrightarrow> length (heap s) \<le> length (heap s')"
proof -
  assume "extends s' s"
  then have "length (take (length (heap s)) (heap s')) = length (heap s)"
    by (simp add: extends_def)
  then show ?thesis by simp
qed

lemma extends_nth:
  assumes "extends s' s" and "a < length (heap s)"
  shows "heap s' ! a = heap s ! a"
proof -
  have "take (length (heap s)) (heap s') ! a = heap s' ! a"
    using assms(2) by simp
  then show ?thesis using assms(1) by (simp add: extends_def)
qed

lemma extends_cell_at:
  "extends s' s \<Longrightarrow> a < length (heap s) \<Longrightarrow> cell_at s' a = cell_at s a"
  using extends_length [of s' s] extends_nth [of s' s a] by (simp add: cell_at_def)

lemma is_Env_iff:
  "is_Env s e \<longleftrightarrow> (\<exists>a ps. cell_at s e = Some (Instance a) \<and> cell_at s a = Some (Object ps))"
proof (cases "cell_at s e")
  case None
  then show ?thesis by (simp add: is_Env_def)
next
  case (Some c)
  show ?thesis
  proof (cases c)
    case (Object ps)
    with Some show ?thesis by (simp add: is_Env_def)
  next
    case (Instance a)
    show ?thesis
    proof (cases "cell_at s a")
      case None
      with Some Instance show ?thesis by (simp add: is_Env_def)
    next
      case (Some d)
      with \<open>cell_at s e = Some c\<close> Instance show ?thesis
        by (cases d) (simp_all add: is_Env_def)
    qed
  qed
qed

lemma is_Env_this_m_extends:
  assumes "is_Env s e" and "extends s' s"
  shows "this_m s' e = this_m s e"
proof -
  from assms(1) obtain a ps where e: "cell_at s e = Some (Instance a)"
    and a: "cell_at s a = Some (Object ps)"
    by (auto simp: is_Env_iff)
  from e have "e < length (heap s)" by (simp add: cell_at_def split: if_splits)
  with assms(2) e have e': "cell_at s' e = Some (Instance a)" by (simp add: extends_cell_at)
  from a have "a < length (heap s)" by (simp add: cell_at_def split: if_splits)
  with assms(2) a have a': "cell_at s' a = Some (Object ps)" by (simp add: extends_cell_at)
  show ?thesis using e a e' a' by (simp add: this_m_def props_def)
qed


lemma extends_refl: "extends s s"
  by (simp add: extends_def)

lemma extends_trans: "extends s2 s1 \<Longrightarrow> extends s1 s0 \<Longrightarrow> extends s2 s0"
proof -
  assume a: "extends s2 s1" and b: "extends s1 s0"
  have le: "length (heap s0) \<le> length (heap s1)" using b by (rule extends_length)
  have "take (length (heap s0)) (heap s2) =
        take (length (heap s0)) (take (length (heap s1)) (heap s2))"
    using le by (simp add: min.absorb1)
  also have "\<dots> = take (length (heap s0)) (heap s1)" using a by (simp add: extends_def)
  also have "\<dots> = heap s0" using b by (simp add: extends_def)
  finally show ?thesis by (simp add: extends_def)
qed

lemma extends_alloc: "extends (snd (alloc c s)) s"
  by (simp add: extends_def heap_alloc)

lemma extends_with_env: "extends (snd (with_env E K V s)) s"
  by (simp add: extends_def heap_with_env)

lemma this_m_with_env:
  "is_Env s E \<Longrightarrow>
   this_m (snd (with_env E K V s)) (fst (with_env E K V s)) = (this_m s E)(K \<mapsto> V)"
  by (simp add: this_m_with_env_raw is_Env_this_m_extends extends_alloc)

lemma is_Env_extends: "is_Env s e \<Longrightarrow> extends s' s \<Longrightarrow> is_Env s' e"
proof -
  assume e: "is_Env s e" and x: "extends s' s"
  from e obtain a ps where 1: "cell_at s e = Some (Instance a)"
    and 2: "cell_at s a = Some (Object ps)"
    by (auto simp: is_Env_iff)
  from 1 have "e < length (heap s)" by (simp add: cell_at_def split: if_splits)
  with x 1 have 3: "cell_at s' e = Some (Instance a)" by (simp add: extends_cell_at)
  from 2 have "a < length (heap s)" by (simp add: cell_at_def split: if_splits)
  with x 2 have "cell_at s' a = Some (Object ps)" by (simp add: extends_cell_at)
  with 3 show ?thesis by (auto simp: is_Env_iff)
qed

lemma is_Env_with_env: "is_Env (snd (with_env E K V s)) (fst (with_env E K V s))"
  by (simp add: is_Env_iff cell_at_def fst_with_env heap_with_env nth_append)

lemma fresh_with_env: "cell_at s (fst (with_env E K V s)) = None"
  by (simp add: cell_at_def fst_with_env)

lemma get_extends: "is_Env s e \<Longrightarrow> extends s' s \<Longrightarrow> get e k s' = get e k s"
  by (simp add: get_def is_Env_this_m_extends)

section \<open>Layer lemmas\<close>

lemma world_withLayer_recording:
  "world (snd (withLayer E K (recording f) s0)) = world s0 @ [(E, this_m s0 E)]"
  by (cases "f E s0") (simp_all add: withLayer_def recording_def Let_def split_def world_with_env)

lemma world_consume_recording:
  "world (snd (consume E K (recording f) s0)) = world s0 @ [(E, this_m s0 E)]"
  by (cases "f E s0") (simp_all add: consume_def recording_def Env_def Let_def split_def world_alloc)

lemma withLayer_Inr:
  "fst (live E s) = Inr v \<Longrightarrow>
   withLayer E K live s =
     (Inr (fst (with_env E K v (snd (live E s)))), snd (with_env E K v (snd (live E s))))"
  by (cases "live E s") (simp add: withLayer_def Let_def split_def)

lemma withLayer_Inl:
  "fst (live E s) = Inl x \<Longrightarrow> withLayer E K live s = (Inl x, snd (live E s))"
  by (cases "live E s") (simp add: withLayer_def)

lemma consume_Inl:
  "fst (live E s) = Inl x \<Longrightarrow> consume E K live s = (Inl x, snd (live E s))"
  by (cases "live E s") (simp add: consume_def)

lemma consume_Inr:
  "fst (live E s) = Inr v \<Longrightarrow>
   consume E K live s =
     (Inr (Suc (length (heap (snd (live E s))))),
      (snd (live E s))\<lparr>heap := heap (snd (live E s)) @
         [Object [K \<mapsto> v], Instance (length (heap (snd (live E s))))]\<rparr>)"
  by (cases "live E s") (simp add: consume_def Env_def alloc_def Let_def split_def)

lemma extends_withLayer: "extends (snd (withLayer E K live s)) (snd (live E s))"
proof (cases "fst (live E s)")
  case (Inl x)
  then show ?thesis by (simp add: withLayer_Inl extends_refl)
next
  case (Inr v)
  then show ?thesis
    by (simp add: withLayer_Inr [where live=live and E=E and s=s] extends_with_env)
qed

lemma extends_consume: "extends (snd (consume E K live s)) (snd (live E s))"
proof (cases "fst (live E s)")
  case (Inl x)
  then show ?thesis by (simp add: consume_Inl extends_refl)
next
  case (Inr v)
  then show ?thesis
    by (simp add: consume_Inr [where live=live and E=E and s=s] extends_def)
qed

lemma extends_build: "extends (snd (build s)) s"
  by (simp add: build_def Env_def alloc_def extends_def Let_def split_def)

lemma index_access_with_type:
  "index_access (with_type T K V) K =
     Some (case index_access T K of None \<Rightarrow> V | Some V0 \<Rightarrow> (\<lambda>v. V0 v \<and> V v))"
  by (simp add: with_type_def split: option.splits)

lemmas eval_defs =
  withLayer_def consume_def with_env_def build_def Env_def alloc_def get_def this_m_def
  props_def cell_at_def is_Env_def extends_def recording_def a_plus_1_def a_times_2_def
  boom_def example_state_def Let_def split_def

section \<open>Claims\<close>

text \<open>
  C1. For every key \<open>K\<close> and value \<open>V\<close>, \<open>Env.build().with(K, V).get(K)\<close> is \<open>V\<close>,
  from whatever state the calls start.
\<close>

theorem get_with_build:
  "(let (E0, s0) = build s; (E1, s1) = with_env E0 K V s0 in get E1 K s1) = Some V"
  by (simp add: get_def Let_def split_def this_m_with_env_raw)

text \<open>
  C2, as the code has it. \<open>withLayer(K, live)\<close> invokes the constructor once, before
  anything else, with the receiver \<open>E\<close> as it is at the call: the log of a recording
  constructor gains the one entry \<open>E\<close>, with the contents \<open>E\<close> had before the call.
  Where the constructor returns \<open>v\<close> and leaves the existing cells alone, the result is
  an environment that binds \<open>K\<close> to \<open>v\<close>, every key other than \<open>K\<close> reads as it does
  in \<open>E\<close>, and the world is as the single run of the constructor left it.
\<close>

theorem withLayer_invokes_layer_once:
  assumes "is_Env s E" and "fst (live E s) = Inr v" and "extends (snd (live E s)) s"
  shows "world (snd (withLayer E K (recording f) s0)) = world s0 @ [(E, this_m s0 E)] \<and>
         (case withLayer E K live s of
            (Inl x, s') \<Rightarrow> False
          | (Inr E', s') \<Rightarrow>
              world s' = world (snd (live E s)) \<and>
              get E' K s' = Some v \<and>
              (\<forall>k. k \<noteq> K \<longrightarrow> get E' k s' = get E k s))"
proof -
  let ?s1 = "snd (live E s)"
  have env1: "is_Env ?s1 E" using assms(1,3) by (rule is_Env_extends)
  have m1: "this_m ?s1 E = this_m s E" using assms(1,3) by (rule is_Env_this_m_extends)
  show ?thesis
    by (simp add: world_withLayer_recording withLayer_Inr [where live=live and E=E and s=s, OF assms(2)] world_with_env
        get_def this_m_with_env [OF env1] m1)
qed

theorem withLayer_invokes_layer_once_witness:
  "is_Env example_state 1 \<and>
   fst (recording a_plus_1 1 example_state) = Inr 2 \<and>
   extends (snd (recording a_plus_1 1 example_state)) example_state \<and>
   world (snd (withLayer 1 ''b'' (recording a_plus_1) example_state)) =
     [(1, this_m example_state 1)] \<and>
   fst (withLayer 1 ''b'' (recording a_plus_1) example_state) = Inr 4 \<and>
   get 4 ''b'' (snd (withLayer 1 ''b'' (recording a_plus_1) example_state)) = Some 2 \<and>
   get 4 ''a'' (snd (withLayer 1 ''b'' (recording a_plus_1) example_state)) = Some 1"
proof -
  have h1: "is_Env example_state 1"
    by (simp add: eval_defs)
  have h2: "fst (recording a_plus_1 1 example_state) = Inr 2"
    by (simp add: eval_defs)
  have h3: "extends (snd (recording a_plus_1 1 example_state)) example_state"
    by (simp add: eval_defs)
  show ?thesis
    using withLayer_invokes_layer_once
      [where s = example_state and E = 1 and live = "recording a_plus_1" and v = 2
         and K = "''b''" and f = a_plus_1 and ?s0.0 = example_state, OF h1 h2 h3]
    by (simp add: eval_defs)
qed

text \<open>
  C2 as stated fails where \<open>E\<close> already binds \<open>K\<close>: with \<open>"a"\<close> bound to 1 in \<open>E\<close>,
  \<open>E.withLayer("a", env => env.get("a") + 1)\<close> passes the constructor an environment
  in which \<open>"a"\<close> is bound, and the key \<open>"a"\<close> of \<open>E\<close> reads 2 in the result, not
  its value 1 from \<open>E\<close>.
\<close>

theorem withLayer_rebind_counterexample:
  "is_Env example_state 1 \<and>
   get 1 ''a'' example_state \<noteq> None \<and>
   world (snd (withLayer 1 ''a'' (recording a_plus_1) example_state)) =
     [(1, this_m example_state 1)] \<and>
   fst (withLayer 1 ''a'' (recording a_plus_1) example_state) = Inr 4 \<and>
   get 4 ''a'' (snd (withLayer 1 ''a'' (recording a_plus_1) example_state)) = Some 2 \<and>
   get 4 ''a'' (snd (withLayer 1 ''a'' (recording a_plus_1) example_state)) \<noteq>
     get 1 ''a'' example_state"
  by (simp add: eval_defs)

text \<open>
  C3. \<open>consume(K, live)\<close> invokes the constructor once with the receiver \<open>E\<close> as it is
  (the log of a recording constructor gains the one entry \<open>E\<close>). Where the constructor
  returns \<open>v\<close>, the result is a new environment whose object is exactly
  \<open>{K: v}\<close>: its runtime key set is \<open>{K}\<close>, \<open>K\<close> reads \<open>v\<close>, no binding of \<open>E\<close>
  is carried over and every other key is absent. The declared return type
  \<open>Env<Has<K, V>>\<close> has the key set \<open>{K}\<close> too.
\<close>

theorem consume_keeps_only_new_key:
  assumes "fst (live E s) = Inr v"
  shows "world (snd (consume E K (recording f) s0)) = world s0 @ [(E, this_m s0 E)] \<and>
         (case consume E K live s of
            (Inl x, s') \<Rightarrow> False
          | (Inr E', s') \<Rightarrow>
              world s' = world (snd (live E s)) \<and>
              is_Env s' E' \<and> cell_at (snd (live E s)) E' = None \<and>
              this_m s' E' = [K \<mapsto> v] \<and>
              dom (this_m s' E') = {K} \<and>
              (\<forall>k. get E' k s' = (if k = K then Some v else None))) \<and>
         keyof (consume_type T K V) = {K}"
  by (simp add: world_consume_recording consume_Inr [where live=live and E=E and s=s, OF assms] is_Env_iff cell_at_def
      this_m_def props_def get_def nth_append consume_type_def)

theorem consume_keeps_only_new_key_witness:
  "fst (recording a_times_2 1 example_state) = Inr 2 \<and>
   world (snd (consume 1 ''b'' (recording a_times_2) example_state)) =
     [(1, this_m example_state 1)] \<and>
   fst (consume 1 ''b'' (recording a_times_2) example_state) = Inr 3 \<and>
   get 3 ''b'' (snd (consume 1 ''b'' (recording a_times_2) example_state)) = Some 2 \<and>
   get 3 ''a'' (snd (consume 1 ''b'' (recording a_times_2) example_state)) = None \<and>
   get 3 ''x'' (snd (consume 1 ''b'' (recording a_times_2) example_state)) = None \<and>
   dom (this_m (snd (consume 1 ''b'' (recording a_times_2) example_state)) 3) = {''b''}"
proof -
  have h: "fst (recording a_times_2 1 example_state) = Inr 2"
    by (simp add: eval_defs)
  show ?thesis
    using consume_keeps_only_new_key
      [where s = example_state and E = 1 and live = "recording a_times_2" and v = 2
         and K = "''b''" and f = a_times_2 and ?s0.0 = example_state, OF h]
    by (simp add: eval_defs)
qed

text \<open>
  C4. Last write wins: after \<open>E.with(K, V1).with(K, V2)\<close> the key \<open>K\<close> reads \<open>V2\<close>.
  The object of the result has the keys of \<open>E\<close> and \<open>K\<close>, and \<open>(K, V2)\<close> is its only
  entry under \<open>K\<close>.
\<close>

theorem rebind_last_write_wins:
  "is_Env s E \<Longrightarrow>
   (let (E1, s1) = with_env E K V1 s; (E2, s2) = with_env E1 K V2 s1
    in get E2 K s2 = Some V2 \<and>
       dom (this_m s2 E2) = insert K (dom (this_m s E)) \<and>
       {(k, v). (k, v) \<in> Map.graph (this_m s2 E2) \<and> k = K} = {(K, V2)})"
  by (auto simp add: get_def Let_def split_def this_m_with_env is_Env_with_env Map.graph_def)

theorem rebind_last_write_wins_witness:
  "is_Env example_state 1 \<and>
   get 7 ''a'' (snd (with_env 4 ''a'' 3 (snd (with_env 1 ''a'' 2 example_state)))) = Some 3 \<and>
   dom (this_m (snd (with_env 4 ''a'' 3 (snd (with_env 1 ''a'' 2 example_state)))) 7) =
     {''a'', ''x''}"
proof -
  have h: "is_Env example_state 1"
    by (simp add: eval_defs)
  show ?thesis
    using rebind_last_write_wins
      [where s = example_state and E = 1 and K = "''a''" and ?V1.0 = 2 and ?V2.0 = 3, OF h]
    by (simp add: eval_defs insert_commute)
qed

text \<open>
  C5, at the input where the code departs from it. The declared type of
  \<open>with(K, value)\<close> is \<open>Env<T & Has<K, V>>\<close>: for a key that \<open>T\<close> declares already,
  \<open>T[K]\<close> becomes the intersection of the old declared type and \<open>V\<close>, not \<open>V\<close>. For
  \<open>Env.build().with("a", 1).with("a", "x")\<close> the declared type of \<open>"a"\<close> is
  \<open>number & string\<close>, which is not \<open>string\<close> and does not admit the value \<open>"x"\<close> that
  \<open>get("a")\<close> returns at run time.
\<close>

theorem rebind_declares_intersection:
  "get_type (with_type T K V) K =
     Some (case get_type T K of None \<Rightarrow> V | Some V0 \<Rightarrow> (\<lambda>v. V0 v \<and> V v)) \<and>
   get_type (with_type (with_type build_type ''a'' is_number) ''a'' is_string) ''a'' =
     Some (\<lambda>v. is_number v \<and> is_string v) \<and>
   get_type (with_type (with_type build_type ''a'' is_number) ''a'' is_string) ''a'' \<noteq>
     Some is_string \<and>
   (let (E0, s0) = build s; (E1, s1) = with_env E0 ''a'' (Num 1) s0;
        (E2, s2) = with_env E1 ''a'' (Str ''x'') s1
    in get E2 ''a'' s2) = Some (Str ''x'') \<and>
   is_string (Str ''x'') \<and> \<not> (is_number (Str ''x'') \<and> is_string (Str ''x''))"
proof -
  have general: "get_type (with_type T K V) K =
      Some (case get_type T K of None \<Rightarrow> V | Some V0 \<Rightarrow> (\<lambda>v. V0 v \<and> V v))"
    by (simp add: get_type_def index_access_with_type)
  have declared:
    "get_type (with_type (with_type build_type ''a'' is_number) ''a'' is_string) ''a'' =
       Some (\<lambda>v. is_number v \<and> is_string v)"
    by (simp add: get_type_def with_type_def build_type_def)
  have "(\<lambda>v. is_number v \<and> is_string v) (Str ''x'') \<noteq> is_string (Str ''x'')"
    by (simp add: is_number_def is_string_def)
  then have ne: "(\<lambda>v. is_number v \<and> is_string v) \<noteq> is_string"
    by metis
  have runtime:
    "(let (E0, s0) = build s; (E1, s1) = with_env E0 ''a'' (Num 1) s0;
          (E2, s2) = with_env E1 ''a'' (Str ''x'') s1
      in get E2 ''a'' s2) = Some (Str ''x'')"
    by (simp add: get_def Let_def split_def this_m_with_env_raw)
  have vals: "is_string (Str ''x'') \<and> \<not> (is_number (Str ''x'') \<and> is_string (Str ''x''))"
    by (simp add: is_number_def is_string_def)
  have differs:
    "get_type (with_type (with_type build_type ''a'' is_number) ''a'' is_string) ''a'' \<noteq>
       Some is_string"
    using declared ne by simp
  from general declared differs runtime vals show ?thesis
    by blast
qed

text \<open>
  C6. No operation changes a cell that exists: \<open>build\<close>, \<open>with\<close>, and the steps that
  \<open>withLayer\<close> and \<open>consume\<close> take after the constructor has returned, only add cells.
  So for every environment \<open>E0\<close> of the state and every key, \<open>get\<close> on \<open>E0\<close> reads
  after the operation what it read before; for \<open>withLayer\<close> and \<open>consume\<close> this holds
  where the caller's constructor itself left the existing cells alone. The environment
  that \<open>with\<close> returns is a new instance.
\<close>

theorem operations_never_mutate:
  assumes "is_Env s E0"
  shows "(let (E', s') = with_env E K V s
          in extends s' s \<and> cell_at s E' = None \<and> (\<forall>k. get E0 k s' = get E0 k s)) \<and>
         extends (snd (withLayer E K live s)) (snd (live E s)) \<and>
         extends (snd (consume E K live s)) (snd (live E s)) \<and>
         (extends (snd (live E s)) s \<longrightarrow>
            extends (snd (withLayer E K live s)) s \<and>
            (\<forall>k. get E0 k (snd (withLayer E K live s)) = get E0 k s) \<and>
            extends (snd (consume E K live s)) s \<and>
            (\<forall>k. get E0 k (snd (consume E K live s)) = get E0 k s)) \<and>
         extends (snd (build s)) s \<and> (\<forall>k. get E0 k (snd (build s)) = get E0 k s)"
proof -
  have w: "extends (snd (with_env E K V s)) s" by (rule extends_with_env)
  have b: "extends (snd (build s)) s" by (rule extends_build)
  have l: "extends (snd (withLayer E K live s)) (snd (live E s))" by (rule extends_withLayer)
  have c: "extends (snd (consume E K live s)) (snd (live E s))" by (rule extends_consume)
  have l': "extends (snd (withLayer E K live s)) s" if "extends (snd (live E s)) s"
    using l that by (rule extends_trans)
  have c': "extends (snd (consume E K live s)) s" if "extends (snd (live E s)) s"
    using c that by (rule extends_trans)
  show ?thesis
    using w b l c l' c' by (simp add: split_def get_extends [OF assms] fresh_with_env)
qed

theorem operations_never_mutate_witness:
  "is_Env example_state 1 \<and>
   extends (snd (recording a_plus_1 1 example_state)) example_state \<and>
   get 1 ''a'' example_state = Some 1 \<and>
   get 1 ''a'' (snd (with_env 1 ''a'' 7 example_state)) = Some 1 \<and>
   get 1 ''a'' (snd (withLayer 1 ''a'' (recording a_plus_1) example_state)) = Some 1 \<and>
   get 1 ''a'' (snd (consume 1 ''a'' (recording a_plus_1) example_state)) = Some 1 \<and>
   get 1 ''a'' (snd (build example_state)) = Some 1"
proof -
  have h: "is_Env example_state 1"
    by (simp add: eval_defs)
  show ?thesis
    using operations_never_mutate
      [where s = example_state and ?E0.0 = 1 and E = 1 and K = "''a''" and V = 7
         and live = "recording a_plus_1", OF h]
    by (simp add: eval_defs)
qed

text \<open>
  C7. Binding leaves the other keys alone: after \<open>E.with(K1, V1).with(K2, V2)\<close> with
  \<open>K1 \<noteq> K2\<close>, \<open>K1\<close> reads \<open>V1\<close>, \<open>K2\<close> reads \<open>V2\<close>, and every other key reads as
  it does in \<open>E\<close>.
\<close>

theorem bind_keeps_other_keys:
  "is_Env s E \<Longrightarrow> K1 \<noteq> K2 \<Longrightarrow>
   (let (E1, s1) = with_env E K1 V1 s; (E2, s2) = with_env E1 K2 V2 s1
    in get E2 K1 s2 = Some V1 \<and> get E2 K2 s2 = Some V2 \<and>
       (\<forall>K3. K3 \<noteq> K1 \<and> K3 \<noteq> K2 \<longrightarrow> get E2 K3 s2 = get E K3 s))"
  by (simp add: get_def Let_def split_def this_m_with_env is_Env_with_env)

theorem bind_keeps_other_keys_witness:
  "is_Env example_state 1 \<and> ''b'' \<noteq> ''c'' \<and>
   get 7 ''b'' (snd (with_env 4 ''c'' 3 (snd (with_env 1 ''b'' 2 example_state)))) = Some 2 \<and>
   get 7 ''c'' (snd (with_env 4 ''c'' 3 (snd (with_env 1 ''b'' 2 example_state)))) = Some 3 \<and>
   get 7 ''a'' (snd (with_env 4 ''c'' 3 (snd (with_env 1 ''b'' 2 example_state)))) = Some 1 \<and>
   get 7 ''x'' (snd (with_env 4 ''c'' 3 (snd (with_env 1 ''b'' 2 example_state)))) = Some 99"
proof -
  have h: "is_Env example_state 1"
    by (simp add: eval_defs)
  have k: "''b'' \<noteq> ''c''"
    by simp
  show ?thesis
    using bind_keeps_other_keys
      [where s = example_state and E = 1 and ?K1.0 = "''b''" and ?K2.0 = "''c''"
         and ?V1.0 = 2 and ?V2.0 = 3, OF h k]
    by (simp add: eval_defs)
qed

text \<open>
  C8. Binds of two different keys commute: \<open>E.with(K1, V1).with(K2, V2)\<close> and
  \<open>E.with(K2, V2).with(K1, V1)\<close> read the same under every key (the second chain may
  run in the same state as the first or in any later one).
\<close>

theorem disjoint_binds_commute:
  "is_Env s E \<Longrightarrow> extends s' s \<Longrightarrow> K1 \<noteq> K2 \<Longrightarrow>
   (let (A1, sa1) = with_env E K1 V1 s; (A2, sa2) = with_env A1 K2 V2 sa1;
        (B1, sb1) = with_env E K2 V2 s'; (B2, sb2) = with_env B1 K1 V1 sb1
    in \<forall>k. get A2 k sa2 = get B2 k sb2)"
  by (simp add: get_def Let_def split_def this_m_with_env is_Env_with_env is_Env_extends
      is_Env_this_m_extends)

theorem disjoint_binds_commute_witness:
  "is_Env example_state 1 \<and> extends example_state example_state \<and> ''b'' \<noteq> ''c'' \<and>
   get 7 ''b'' (snd (with_env 4 ''c'' 3 (snd (with_env 1 ''b'' 2 example_state)))) =
   get 7 ''b'' (snd (with_env 4 ''b'' 2 (snd (with_env 1 ''c'' 3 example_state)))) \<and>
   get 7 ''c'' (snd (with_env 4 ''c'' 3 (snd (with_env 1 ''b'' 2 example_state)))) =
   get 7 ''c'' (snd (with_env 4 ''b'' 2 (snd (with_env 1 ''c'' 3 example_state)))) \<and>
   get 7 ''b'' (snd (with_env 4 ''b'' 2 (snd (with_env 1 ''c'' 3 example_state)))) = Some 2 \<and>
   get 7 ''c'' (snd (with_env 4 ''b'' 2 (snd (with_env 1 ''c'' 3 example_state)))) = Some 3"
proof -
  have h: "is_Env example_state 1"
    by (simp add: eval_defs)
  have x: "extends example_state example_state"
    by (rule extends_refl)
  have k: "''b'' \<noteq> ''c''"
    by simp
  show ?thesis
    using disjoint_binds_commute
      [where s = example_state and s' = example_state and E = 1 and ?K1.0 = "''b''"
         and ?K2.0 = "''c''" and ?V1.0 = 2 and ?V2.0 = 3, OF h x k]
    by (simp add: eval_defs)
qed

text \<open>
  C9. \<open>withLayer\<close> and \<open>consume\<close> raise \<open>x\<close> exactly when the constructor, applied to
  the receiver, raises \<open>x\<close>; the failure is passed on as it is, and the state is the
  one the constructor left.
\<close>

theorem layer_failure_propagates:
  "(fst (withLayer E K live s) = Inl x) = (fst (live E s) = Inl x) \<and>
   (fst (consume E K live s) = Inl x) = (fst (live E s) = Inl x) \<and>
   (fst (live E s) = Inl x \<longrightarrow>
      withLayer E K live s = (Inl x, snd (live E s)) \<and>
      consume E K live s = (Inl x, snd (live E s)))"
proof (cases "fst (live E s)")
  case (Inl y)
  then show ?thesis by (simp add: withLayer_Inl consume_Inl)
next
  case (Inr v)
  then show ?thesis
    by (simp add: withLayer_Inr [where live=live and E=E and s=s]
        consume_Inr [where live=live and E=E and s=s])
qed

theorem layer_failure_propagates_witness:
  "fst (recording boom 1 example_state) = Inl ''boom'' \<and>
   withLayer 1 ''b'' (recording boom) example_state =
     (Inl ''boom'', snd (recording boom 1 example_state)) \<and>
   consume 1 ''b'' (recording boom) example_state =
     (Inl ''boom'', snd (recording boom 1 example_state)) \<and>
   fst (withLayer 1 ''b'' (recording a_plus_1) example_state) \<noteq> Inl ''boom''"
  using layer_failure_propagates
    [where E = 1 and K = "''b''" and live = "recording boom" and s = example_state
       and x = "''boom''"]
    layer_failure_propagates
    [where E = 1 and K = "''b''" and live = "recording a_plus_1" and s = example_state
       and x = "''boom''"]
  by (simp add: recording_def boom_def a_plus_1_def get_def this_m_def props_def cell_at_def
      example_state_def)

text \<open>
  C10. \<open>withLayer(K, live)\<close> is \<open>with(K, v)\<close> for the value \<open>v\<close> the constructor
  returns on the receiver: the two give the same result in the same state, and so the
  same reading under every key.
\<close>

theorem withLayer_is_bind_of_result:
  "withLayer E K live s = bind_of_layer_result E K live s \<and>
   (fst (live E s) = Inr v \<longrightarrow>
      (case withLayer E K live s of
         (Inl x, s1) \<Rightarrow> False
       | (Inr E1, s1) \<Rightarrow>
           (let (E2, s2) = with_env E K v (snd (live E s))
            in \<forall>k. get E1 k s1 = get E2 k s2)))"
proof (cases "fst (live E s)")
  case (Inl y)
  then show ?thesis by (simp add: withLayer_Inl bind_of_layer_result_def)
next
  case (Inr u)
  then show ?thesis
    by (simp add: withLayer_Inr [where live=live and E=E and s=s] bind_of_layer_result_def
        split_def)
qed

theorem withLayer_is_bind_of_result_witness:
  "fst (recording a_plus_1 1 example_state) = Inr 2 \<and>
   withLayer 1 ''b'' (recording a_plus_1) example_state =
     bind_of_layer_result 1 ''b'' (recording a_plus_1) example_state \<and>
   get 4 ''b'' (snd (withLayer 1 ''b'' (recording a_plus_1) example_state)) =
     get 4 ''b'' (snd (with_env 1 ''b'' 2 (snd (recording a_plus_1 1 example_state)))) \<and>
   get 4 ''b'' (snd (withLayer 1 ''b'' (recording a_plus_1) example_state)) = Some 2"
  using withLayer_is_bind_of_result
    [where E = 1 and K = "''b''" and live = "recording a_plus_1" and s = example_state
       and v = 2]
  by (simp add: eval_defs bind_of_layer_result_def)

end
